theory Spec2Isabelle
  imports Main "HOL-Library.AList"
begin

section \<open>Data model (src/src/execute.ts, src/src/imageHome.ts)\<close>

text \<open>
  A file is a named artifact. \<open>MagickInputFile\<close> adds the content, \<open>MagickOutputFile\<close>
  adds the blob the engine produced; both extend \<open>MagickFile\<close> as in the TypeScript
  interfaces. Contents are byte lists.
\<close>

type_synonym bytes = "nat list"

record MagickFile =
  name :: string

record MagickInputFile = MagickFile +
  content :: bytes

record MagickOutputFile = MagickFile +
  blob :: bytes

text \<open>
  \<open>Command = (string | number)[]\<close>. Numbers are integers here; \<open>c + ''\<close> prints them in
  decimal.
\<close>

datatype Token = TStr string | TNum int

type_synonym Command = "Token list"

fun showNat :: "nat \<Rightarrow> string" where
  "showNat n =
     (if n < 10 then [char_of (48 + n)]
      else showNat (n div 10) @ [char_of (48 + n mod 10)])"

declare showNat.simps [simp del]

definition showInt :: "int \<Rightarrow> string" where
  "showInt i = (if i < 0 then CHR ''-'' # showNat (nat (- i)) else showNat (nat i))"

fun tokenString :: "Token \<Rightarrow> string" where
  "tokenString (TStr s) = s"
| "tokenString (TNum i) = showInt i"

text \<open>\<open>lines.join('\n')\<close>.\<close>

fun joinLines :: "string list \<Rightarrow> string" where
  "joinLines [] = []"
| "joinLines [l] = l"
| "joinLines (l # ls) = l @ CHR 0x0A # joinLines ls"

text \<open>
  \<open>ExecuteConfig = { inputFiles?: MagickInputFile[], commands: ExecuteCommand }\<close>.
  The field \<open>commands\<close> is a type parameter, because \<open>asExecuteConfig\<close> may store its
  whole first argument there.
\<close>

datatype 'c Config =
  Config (cfg_inputFiles: "MagickInputFile list option") (cfg_commands: 'c)

text \<open>
  The values the entry points accept as first argument
  (\<open>ExecuteConfig | ExecuteCommand | MagickInputFile[]\<close>, with
  \<open>ExecuteCommand = Command[] | Command | string\<close>), and as second argument.
\<close>

datatype Arg =
    ArgString string
  | ArgCommand Command
  | ArgCommands "Command list"
  | ArgFiles "MagickInputFile list"
  | ArgConfig "Arg Config"

type_synonym ExecuteConfig = "Arg Config"

datatype Elem = EToken Token | ECommand Command | EFile MagickInputFile

datatype error = NoCommandGiven | TypeError

record CallResult =
  stdout :: "string list"
  stderr :: "string list"
  exitCode :: int
  outputFiles :: "MagickOutputFile list"
  inputFiles :: "MagickInputFile list"
  command :: "string list"

text \<open>\<open>errors\<close>: one slot per attempt, \<open>None\<close> is JavaScript's \<open>undefined\<close>.\<close>

record ExecuteResultOne = CallResult +
  errors :: "string option list"

record ExecuteResult = ExecuteResultOne +
  results :: "ExecuteResultOne list"
  commands :: "Command list"

section \<open>JavaScript values\<close>

text \<open>
  Truthiness (\<open>!!v\<close>): of the values of \<open>Arg\<close> only the empty string is falsy; arrays
  (also empty ones) and objects are truthy.
\<close>

fun truthy :: "Arg \<Rightarrow> bool" where
  "truthy (ArgString s) = (s \<noteq> [])"
| "truthy _ = True"

text \<open>\<open>!command\<close> for the optional second argument: \<open>undefined\<close> is \<open>None\<close>.\<close>

fun falsyOpt :: "Arg option \<Rightarrow> bool" where
  "falsyOpt None = True"
| "falsyOpt (Some c) = (\<not> truthy c)"

text \<open>\<open>Array.isArray(v)\<close> and \<open>v[0]\<close> on an array.\<close>

fun isArray :: "Arg \<Rightarrow> bool" where
  "isArray (ArgCommand _) = True"
| "isArray (ArgCommands _) = True"
| "isArray (ArgFiles _) = True"
| "isArray _ = False"

fun elem0 :: "Arg \<Rightarrow> Elem option" where
  "elem0 (ArgCommand (t # _)) = Some (EToken t)"
| "elem0 (ArgCommands (c # _)) = Some (ECommand c)"
| "elem0 (ArgFiles (f # _)) = Some (EFile f)"
| "elem0 _ = None"

text \<open>
  A name-keyed object (\<open>{ [name: string]: T }\<close>, created as \<open>{}\<close>) is the association
  list of its own properties, one entry per key. On such an object \<open>obj[k] = v\<close>, with
  \<open>v\<close> an object, replaces the value of the own key \<open>k\<close> in place or appends the key;
  for the key \<open>__proto__\<close> it runs the setter inherited from \<open>Object.prototype\<close>
  instead, which makes \<open>v\<close> the prototype of \<open>obj\<close> and creates no own property.
\<close>

definition assign :: "string \<Rightarrow> 'v \<Rightarrow> (string \<times> 'v) list \<Rightarrow> (string \<times> 'v) list" where
  "assign k v obj = (if k = ''__proto__'' then obj else AList.update k v obj)"

text \<open>
  Modelled from the spec: \<open>values\<close> of src/util/misc is not in src/; it lists the values
  of a name-keyed store, that is of its own properties, in the store's key order. The
  order here is the order of first
  insertion; JavaScript lists integer-like keys before the others, and no theorem
  below depends on the order.
\<close>

definition values_of :: "(string \<times> 'v) list \<Rightarrow> 'v list" where
  "values_of obj = map snd obj"

section \<open>External collaborators\<close>

text \<open>
  Modelled from the spec: \<open>isInputFile\<close> of src/util is not in src/. The file-sequence
  shape is "a sequence whose first element looks like a file-like object": the first
  element is there and is a file.
\<close>

fun isInputFile :: "Elem option \<Rightarrow> bool" where
  "isInputFile (Some (EFile f)) = True"
| "isInputFile _ = False"

text \<open>
  Modelled from the spec: \<open>asInputFile\<close> of src/util is not in src/. It turns a file
  representation into a canonical named-file record under the same name; how the
  content is read is the parameter \<open>rd\<close>.
\<close>

definition asInputFile ::
  "('a MagickFile_scheme \<Rightarrow> bytes) \<Rightarrow> 'a MagickFile_scheme \<Rightarrow> MagickInputFile" where
  "asInputFile rd f = \<lparr>name = name f, content = rd f\<rparr>"

text \<open>
  Modelled from the spec: \<open>asCommand\<close> of src/util/cli is not in src/. A non-empty
  sequence of token sequences is already a batch and passes through unchanged. The
  command-line tokenizer and the treatment of every other value are the parameter
  \<open>cli\<close>.
\<close>

fun asCommand :: "(Arg \<Rightarrow> Command list) \<Rightarrow> Arg \<Rightarrow> Command list" where
  "asCommand cli (ArgCommands (c # cs)) = c # cs"
| "asCommand cli a = cli a"

text \<open>
  The environment of a batch. \<open>call\<close> is the processing primitive: from the state of
  the engine, the input files and the stringified tokens it either returns a
  \<open>CallResult\<close> or throws (\<open>Inl\<close>, the thrown value as \<open>error + ''\<close> prints it), and
  leaves a new engine state. \<open>latency k f\<close> is the time the conversion of the output
  file \<open>f\<close> of step \<open>k\<close> takes: the conversions of one step's outputs all start
  together and complete in order of latency.
\<close>

record 'w Env =
  call :: "'w \<Rightarrow> MagickInputFile list \<Rightarrow> string list \<Rightarrow> (string + CallResult) \<times> 'w"
  cli :: "Arg \<Rightarrow> Command list"
  readBlob :: "MagickOutputFile \<Rightarrow> bytes"
  latency :: "nat \<Rightarrow> MagickOutputFile \<Rightarrow> nat"

section \<open>Config normalizer\<close>

text \<open>\<open>isExecuteConfig(arg) = !!arg.commands\<close>; strings and arrays have no such property.\<close>

fun isExecuteConfig :: "Arg \<Rightarrow> bool" where
  "isExecuteConfig (ArgConfig c) = truthy (cfg_commands c)"
| "isExecuteConfig _ = False"

text \<open>The cast \<open>configOrCommandOrFiles as MagickInputFile[]\<close>.\<close>

fun filesOf :: "Arg \<Rightarrow> MagickInputFile list" where
  "filesOf (ArgFiles fs) = fs"
| "filesOf _ = []"

definition asExecuteConfig :: "Arg \<Rightarrow> Arg option \<Rightarrow> error + ExecuteConfig" where
  "asExecuteConfig configOrCommandOrFiles cmd =
     (if isExecuteConfig configOrCommandOrFiles then
        (case configOrCommandOrFiles of
           ArgConfig c \<Rightarrow> Inr c
         | _ \<Rightarrow> Inr (Config (Some []) configOrCommandOrFiles))
      else if isArray configOrCommandOrFiles
              \<and> isInputFile (elem0 configOrCommandOrFiles) then
        (case cmd of
           None \<Rightarrow> Inl NoCommandGiven
         | Some c \<Rightarrow>
             if falsyOpt (Some c) then Inl NoCommandGiven
             else Inr (Config (Some (filesOf configOrCommandOrFiles)) c))
      else Inr (Config (Some []) configOrCommandOrFiles))"

section \<open>executeOne\<close>

text \<open>\<open>{ ...result, errors: es }\<close>.\<close>

definition withErrors :: "CallResult \<Rightarrow> string option list \<Rightarrow> ExecuteResultOne" where
  "withErrors r es =
     \<lparr>stdout = stdout r, stderr = stderr r, exitCode = exitCode r,
      outputFiles = outputFiles r, inputFiles = inputFiles r, command = command r,
      errors = es\<rparr>"

text \<open>The default result and the \<open>try\<close>/\<open>catch\<close> block of \<open>executeOne\<close>.\<close>

definition defaultResult :: "MagickInputFile list \<Rightarrow> Command \<Rightarrow> CallResult" where
  "defaultResult fs c =
     \<lparr>stdout = [], stderr = [], exitCode = 1, outputFiles = [], inputFiles = fs,
      command = map tokenString c\<rparr>"

definition tryCall ::
  "'w Env \<Rightarrow> 'w \<Rightarrow> MagickInputFile list \<Rightarrow> Command \<Rightarrow> ExecuteResultOne \<times> 'w" where
  "tryCall env w fs c =
     (case call env w fs (map tokenString c) of
        (Inr result, w') \<Rightarrow>
          (if exitCode result \<noteq> 0 then
             (withErrors result
                [Some (''exit code: '' @ showInt (exitCode result) @ '' stderr: ''
                       @ joinLines (stderr result))], w')
           else (withErrors result [None], w'))
      | (Inl thrown, w') \<Rightarrow>
          (withErrors (defaultResult fs c)
             [Some (thrown @ '', exit code: '' @ showInt (exitCode (defaultResult fs c))
                    @ '', stderr: '' @ joinLines (stderr (defaultResult fs c)))], w'))"

text \<open>
  \<open>executeOne\<close>: normalize, take the first command (\<open>command.map\<close> on \<open>undefined\<close> is a
  \<open>TypeError\<close> when there is none), call.
\<close>

definition orEmpty :: "'a list option \<Rightarrow> 'a list" where
  "orEmpty x = (case x of None \<Rightarrow> [] | Some xs \<Rightarrow> xs)"

definition executeOne ::
  "'w Env \<Rightarrow> 'w \<Rightarrow> Arg \<Rightarrow> Arg option \<Rightarrow> (error + ExecuteResultOne) \<times> 'w" where
  "executeOne env w configOrCommand execCommand =
     (case asExecuteConfig configOrCommand execCommand of
        Inl e \<Rightarrow> (Inl e, w)
      | Inr config \<Rightarrow>
          (case asCommand (cli env) (cfg_commands config) of
             [] \<Rightarrow> (Inl TypeError, w)
           | c # _ \<Rightarrow>
               (case tryCall env w (orEmpty (cfg_inputFiles config)) c of
                  (r, w') \<Rightarrow> (Inr r, w'))))"

section \<open>execute\<close>

text \<open>
  The variables \<open>execute\<close> closes over, and the state of the engine. The local
  \<open>results\<close> is the field \<open>resultsAcc\<close>.
\<close>

record 'w Batch =
  allOutputFiles :: "(string \<times> MagickOutputFile) list"
  allInputFiles :: "(string \<times> MagickInputFile) list"
  allErrors :: "string option list"
  resultsAcc :: "ExecuteResultOne list"
  allStdout :: "string list"
  allStderr :: "string list"
  engine :: 'w

text \<open>
  \<open>files.forEach(f => obj[f.name] = f)\<close>. The stores of \<open>execute\<close> are read through
  \<open>values\<close> only, so their prototype is not kept.
\<close>

definition putAll ::
  "(string \<times> 'a MagickFile_scheme) list \<Rightarrow> 'a MagickFile_scheme list
   \<Rightarrow> (string \<times> 'a MagickFile_scheme) list" where
  "putAll obj fs = foldl (\<lambda>m f. assign (name f) f m) obj fs"

text \<open>
  The order in which the conversions of one step's output files complete: all start
  together (\<open>pMap\<close> without a concurrency limit), the quicker one completes first, and
  equal latencies complete in source order.
\<close>

definition completionOrder ::
  "'w Env \<Rightarrow> nat \<Rightarrow> MagickOutputFile list \<Rightarrow> MagickOutputFile list" where
  "completionOrder env k fs = sort_key (latency env k) fs"

text \<open>
  The body of \<open>mapper\<close> after \<open>await executeOne(thisConfig)\<close>, in the step whose
  index is the number of results so far: push the result,
  concatenate errors, stdout and stderr, and absorb the output files. Every
  \<open>allOutputFiles[f.name] = f\<close> runs in source order when the inner \<open>pMap\<close> starts;
  every \<open>allInputFiles[inputFile.name] = inputFile\<close> runs when its conversion completes.
\<close>

definition absorb :: "'w Env \<Rightarrow> 'w Batch \<Rightarrow> ExecuteResultOne \<Rightarrow> 'w \<Rightarrow> 'w Batch" where
  "absorb env st result w' =
     \<lparr>allOutputFiles = putAll (allOutputFiles st) (outputFiles result),
      allInputFiles =
        putAll (allInputFiles st)
          (map (asInputFile (readBlob env))
             (completionOrder env (length (resultsAcc st)) (outputFiles result))),
      allErrors = allErrors st @ errors result,
      resultsAcc = resultsAcc st @ [result],
      allStdout = allStdout st @ stdout result,
      allStderr = allStderr st @ stderr result,
      engine = w'\<rparr>"

definition thisConfig :: "'w Batch \<Rightarrow> Command \<Rightarrow> Arg" where
  "thisConfig st c = ArgConfig (Config (Some (values_of (allInputFiles st))) (ArgCommands [c]))"

definition mapper :: "'w Env \<Rightarrow> 'w Batch \<Rightarrow> Command \<Rightarrow> (error \<times> 'w) + 'w Batch" where
  "mapper env st c =
     (case executeOne env (engine st) (thisConfig st c) None of
        (Inl e, w') \<Rightarrow> Inl (e, w')
      | (Inr result, w') \<Rightarrow> Inr (absorb env st result w'))"

text \<open>
  \<open>pMap(commands, mapper, { concurrency: 1 })\<close>: one step at a time, in source order;
  a step that rejects rejects the whole.
\<close>

fun pMapSerial :: "('s \<Rightarrow> 'a \<Rightarrow> 'e + 's) \<Rightarrow> 's \<Rightarrow> 'a list \<Rightarrow> 'e + 's" where
  "pMapSerial f s [] = Inr s"
| "pMapSerial f s (x # xs) =
     (case f s x of Inl e \<Rightarrow> Inl e | Inr s' \<Rightarrow> pMapSerial f s' xs)"

definition initBatch :: "'w \<Rightarrow> MagickInputFile list \<Rightarrow> 'w Batch" where
  "initBatch w fs =
     \<lparr>allOutputFiles = [], allInputFiles = putAll [] fs, allErrors = [],
      resultsAcc = [], allStdout = [], allStderr = [], engine = w\<rparr>"

text \<open>\<open>results.find(r => r.exitCode !== 0)\<close> and the exit code built from it.\<close>

definition aggregateExitCode :: "ExecuteResultOne list \<Rightarrow> int" where
  "aggregateExitCode rs =
     (case find (\<lambda>r. exitCode r \<noteq> 0) rs of
        Some resultWithError \<Rightarrow> exitCode resultWithError
      | None \<Rightarrow> 0)"

definition finish :: "MagickInputFile list \<Rightarrow> Command list \<Rightarrow> 'w Batch \<Rightarrow> ExecuteResult" where
  "finish fs cmds st =
     \<lparr>stdout = allStdout st, stderr = allStderr st,
      exitCode = aggregateExitCode (resultsAcc st),
      outputFiles = values_of (allOutputFiles st), inputFiles = fs, command = [],
      errors = allErrors st, results = resultsAcc st, commands = cmds\<rparr>"

definition execute ::
  "'w Env \<Rightarrow> 'w \<Rightarrow> Arg \<Rightarrow> Arg option \<Rightarrow> (error + ExecuteResult) \<times> 'w" where
  "execute env w configOrCommandOrFiles cmd =
     (case asExecuteConfig configOrCommandOrFiles cmd of
        Inl e \<Rightarrow> (Inl e, w)
      | Inr config \<Rightarrow>
          (case pMapSerial (mapper env) (initBatch w (orEmpty (cfg_inputFiles config)))
                  (asCommand (cli env) (cfg_commands config)) of
             Inl (e, w') \<Rightarrow> (Inl e, w')
           | Inr st \<Rightarrow>
               (Inr (finish (orEmpty (cfg_inputFiles config))
                       (asCommand (cli env) (cfg_commands config)) st),
                engine st)))"

text \<open>
  The state each step starts from, the input files handed to step \<open>k\<close> (counted from
  0) and the step itself, once \<open>executeOne\<close> is known to return for
  \<open>thisConfig\<close>.
\<close>

definition runStep :: "'w Env \<Rightarrow> 'w Batch \<Rightarrow> Command \<Rightarrow> 'w Batch" where
  "runStep env st c =
     (case tryCall env (engine st) (values_of (allInputFiles st)) c of
        (result, w') \<Rightarrow> absorb env st result w')"

definition batchBefore ::
  "'w Env \<Rightarrow> 'w \<Rightarrow> MagickInputFile list \<Rightarrow> Command list \<Rightarrow> nat \<Rightarrow> 'w Batch" where
  "batchBefore env w fs cmds k = foldl (runStep env) (initBatch w fs) (take k cmds)"

definition stepInputs ::
  "'w Env \<Rightarrow> 'w \<Rightarrow> MagickInputFile list \<Rightarrow> Command list \<Rightarrow> nat \<Rightarrow> MagickInputFile list" where
  "stepInputs env w fs cmds k = values_of (allInputFiles (batchBefore env w fs cmds k))"

text \<open>
  The pool of available inputs in the words of the specification: the caller-supplied
  input files, then every output file absorbed from the earlier steps, a later file of
  the same name overwriting the earlier one. \<open>absorbedFiles\<close> lists what the steps
  with the given results absorbed, step by step; \<open>latestByName\<close> keeps of each name
  the last file. \<open>ownNamed\<close> keeps the files that a store holds as own properties,
  those not named \<open>__proto__\<close>.
\<close>

definition ownNamed :: "'a MagickFile_scheme list \<Rightarrow> 'a MagickFile_scheme list" where
  "ownNamed fs = filter (\<lambda>f. name f \<noteq> ''__proto__'') fs"

definition latestByName :: "MagickInputFile list \<Rightarrow> string \<Rightarrow> MagickInputFile option" where
  "latestByName fs = map_of (rev (map (\<lambda>f. (name f, f)) fs))"

definition absorbedFiles :: "'w Env \<Rightarrow> ExecuteResultOne list \<Rightarrow> MagickInputFile list" where
  "absorbedFiles env rs =
     concat (map (\<lambda>jr. map (asInputFile (readBlob env))
                          (completionOrder env (fst jr) (outputFiles (snd jr))))
               (enumerate 0 rs))"

section \<open>The file registry (ImageHomeImpl)\<close>

text \<open>
  A promise of \<open>asInputFile\<close> is an object on the heap: the file its conversion
  yields and the flag \<open>resolved\<close> that the continuation of \<open>register\<close> sets. A
  reference is an index into the heap. The registry holds \<open>images\<close>, a name-keyed
  object of references, and \<open>builtInImagesAdded\<close>. \<open>prototype\<close> is the prototype of
  the object \<open>images\<close>: \<open>None\<close> is \<open>Object.prototype\<close>, \<open>Some p\<close> the promise \<open>p\<close>.
\<close>

record MagickInputFilePromise =
  conversion :: MagickInputFile
  resolved :: bool

record ImageHomeImpl =
  images :: "(string \<times> nat) list"
  prototype :: "nat option"
  builtInImagesAdded :: bool
  heap :: "MagickInputFilePromise list"

definition createImageHome :: ImageHomeImpl where
  "createImageHome = \<lparr>images = [], prototype = None, builtInImagesAdded = False, heap = []\<rparr>"

text \<open>
  The promise of the registry that \<open>this.images[name]\<close> evaluates to, if any: for
  \<open>__proto__\<close>, which is never an own key, what the inherited getter returns, the
  prototype, when that is a promise; for any other name the value of the own key.
\<close>

definition registered :: "string \<Rightarrow> ImageHomeImpl \<Rightarrow> nat option" where
  "registered n h = (if n = ''__proto__'' then prototype h else map_of (images h) n)"

text \<open>
  \<open>get(name)\<close> returns \<open>this.images[name]\<close>: a promise of the registry, or a value
  found on the prototype chain that is none (\<open>Object.prototype\<close> itself for
  \<open>__proto__\<close>, a method such as \<open>toString\<close> or \<open>then\<close>, the flag \<open>resolved\<close> of a promise
  that became the prototype), or \<open>undefined\<close>. Which other names the prototype chain
  answers in a state is the parameter \<open>inherited\<close>.
\<close>

datatype Lookup = Undefined | Registered nat | Inherited

definition get :: "(ImageHomeImpl \<Rightarrow> string \<Rightarrow> bool) \<Rightarrow> string \<Rightarrow> ImageHomeImpl \<Rightarrow> Lookup" where
  "get inherited n h =
     (case registered n h of
        Some p \<Rightarrow> Registered p
      | None \<Rightarrow> if n = ''__proto__'' \<or> inherited h n then Inherited else Undefined)"

text \<open>
  \<open>register(file, name = file.name)\<close>: returns the promise and the new state.
  \<open>this.images[name] = promise\<close> is \<open>assign\<close> on the own properties, and for the name
  \<open>__proto__\<close> makes the promise the prototype of \<open>images\<close>.
\<close>

definition register ::
  "('a MagickFile_scheme \<Rightarrow> bytes) \<Rightarrow> 'a MagickFile_scheme \<Rightarrow> string option
   \<Rightarrow> ImageHomeImpl \<Rightarrow> nat \<times> ImageHomeImpl" where
  "register rd file nm h =
     (let promise = length (heap h);
          n = (case nm of None \<Rightarrow> name file | Some n' \<Rightarrow> n')
      in (promise,
          h\<lparr>heap := heap h @ [\<lparr>conversion = asInputFile rd file, resolved = False\<rparr>],
            images := assign n promise (images h),
            prototype := (if n = ''__proto__'' then Some promise else prototype h)\<rparr>))"

text \<open>
  The conversion behind promise \<open>p\<close> completes and the continuation
  \<open>promise.resolved = true\<close> runs.
\<close>

definition settle :: "nat \<Rightarrow> ImageHomeImpl \<Rightarrow> ImageHomeImpl" where
  "settle p h =
     (if p < length (heap h)
      then h\<lparr>heap := (heap h)[p := (heap h ! p)\<lparr>resolved := True\<rparr>]\<rparr>
      else h)"

text \<open>
  \<open>isRegistered(name, andReady = true)\<close>, as the truthiness of
  \<open>this.images[name] && (andReady && this.images[name].resolved)\<close>. Where
  \<open>this.images[name]\<close> is \<open>undefined\<close> the conjunction is falsy; where it is a value
  of the prototype chain that is no promise of the registry, that value is truthy but
  has no property \<open>resolved\<close>, and the conjunction is falsy again.
\<close>

definition resolvedFlag :: "ImageHomeImpl \<Rightarrow> nat \<Rightarrow> bool" where
  "resolvedFlag h p = (p < length (heap h) \<and> resolved (heap h ! p))"

definition isRegistered :: "string \<Rightarrow> bool option \<Rightarrow> ImageHomeImpl \<Rightarrow> bool" where
  "isRegistered n andReady h =
     (case registered n h of
        None \<Rightarrow> False
      | Some p \<Rightarrow> (case andReady of None \<Rightarrow> True | Some b \<Rightarrow> b) \<and> resolvedFlag h p)"

text \<open>
  \<open>remove(names)\<close> walks \<open>Object.keys(this.images)\<close>, the own keys: the removed
  promises, in key order, and the new state.
\<close>

definition remove :: "string list \<Rightarrow> ImageHomeImpl \<Rightarrow> nat list \<times> ImageHomeImpl" where
  "remove names h =
     (map snd (filter (\<lambda>e. fst e \<in> set names) (images h)),
      h\<lparr>images := filter (\<lambda>e. fst e \<notin> set names) (images h)\<rparr>)"



text \<open>A sequence of \<open>register\<close> calls, each with its file and optional name.\<close>

definition registerCalls ::
  "('a MagickFile_scheme \<Rightarrow> bytes) \<Rightarrow> ('a MagickFile_scheme \<times> string option) list
   \<Rightarrow> ImageHomeImpl \<Rightarrow> ImageHomeImpl" where
  "registerCalls rd cs h = foldl (\<lambda>s c. snd (register rd (fst c) (snd c) s)) h cs"

definition callName :: "'a MagickFile_scheme \<times> string option \<Rightarrow> string" where
  "callName c = (case snd c of None \<Rightarrow> name (fst c) | Some n \<Rightarrow> n)"

section \<open>A small engine for concrete runs\<close>

text \<open>
  An engine whose state counts the calls made. \<open>[''throw'']\<close> throws; a three-token
  command \<open>[p, src, dst]\<close> writes the file \<open>dst\<close> when a file named \<open>src\<close> is among
  the inputs and fails with exit code 1 otherwise; every other command fails with
  exit code 2. The tokenizer takes a token array as one command and a non-empty
  string as a one-token command.
\<close>

definition demoResult ::
  "MagickInputFile list \<Rightarrow> string list \<Rightarrow> int \<Rightarrow> string list \<Rightarrow> MagickOutputFile list
   \<Rightarrow> CallResult" where
  "demoResult fs c ec err outs =
     \<lparr>stdout = [], stderr = err, exitCode = ec, outputFiles = outs, inputFiles = fs,
      command = c\<rparr>"

definition demoCall ::
  "nat \<Rightarrow> MagickInputFile list \<Rightarrow> string list \<Rightarrow> (string + CallResult) \<times> nat" where
  "demoCall w fs c =
     (if c = [''throw''] then (Inl ''Error: boom'', Suc w)
      else case c of
        [p, src, dst] \<Rightarrow>
          (if src \<in> set (map name fs)
           then (Inr (demoResult fs c 0 [] [\<lparr>name = dst, blob = [1]\<rparr>]), Suc w)
           else (Inr (demoResult fs c 1 [''no such file''] []), Suc w))
      | _ \<Rightarrow> (Inr (demoResult fs c 2 [''bad command''] []), Suc w))"

definition demoCli :: "Arg \<Rightarrow> Command list" where
  "demoCli a =
     (case a of
        ArgCommand c \<Rightarrow> [c]
      | ArgString s \<Rightarrow> (if s = [] then [] else [[TStr s]])
      | _ \<Rightarrow> [])"

definition demoEnv :: "nat Env" where
  "demoEnv = \<lparr>call = demoCall, cli = demoCli, readBlob = blob, latency = (\<lambda>w f. 0)\<rparr>"

definition rose :: MagickInputFile where
  "rose = \<lparr>name = ''rose.png'', content = [7]\<rparr>"

text \<open>
  A batch of three steps on the input file \<open>rose.png\<close>: the first succeeds and writes
  \<open>mid.png\<close>, the second fails with exit code 1, the third with exit code 2.
\<close>

definition demoBatch :: Arg where
  "demoBatch = ArgConfig (Config (Some [rose]) (ArgCommands
     [[TStr ''convert'', TStr ''rose.png'', TStr ''mid.png''],
      [TStr ''convert'', TStr ''lily.png'', TStr ''out.png''],
      [TStr ''bogus'']]))"

text \<open>
  A chain of two steps: the second reads \<open>mid.png\<close>, which the first writes. And a
  batch whose caller supplies two files named \<open>rose.png\<close> and whose two steps both
  write \<open>out.png\<close>.
\<close>

definition demoChain :: "Command list" where
  "demoChain =
     [[TStr ''convert'', TStr ''rose.png'', TStr ''mid.png''],
      [TStr ''convert'', TStr ''mid.png'', TStr ''out.png'']]"

definition demoTwice :: Arg where
  "demoTwice = ArgConfig (Config (Some [rose, rose\<lparr>content := [8]\<rparr>]) (ArgCommands
     [[TStr ''convert'', TStr ''rose.png'', TStr ''out.png''],
      [TStr ''convert'', TStr ''rose.png'', TStr ''out.png'']]))"

text \<open>
  A second file, and three \<open>register\<close> calls of which the last re-registers the name
  \<open>rose.png\<close> with another content.
\<close>

definition lily :: MagickInputFile where
  "lily = \<lparr>name = ''lily.png'', content = [9]\<rparr>"

text \<open>A file named \<open>__proto__\<close>, and a chain of two steps whose first writes it.\<close>

definition protoFile :: MagickInputFile where
  "protoFile = \<lparr>name = ''__proto__'', content = [7]\<rparr>"

definition protoChain :: "Command list" where
  "protoChain =
     [[TStr ''convert'', TStr ''rose.png'', TStr ''__proto__''],
      [TStr ''convert'', TStr ''__proto__'', TStr ''out.png'']]"

definition demoCalls :: "(MagickInputFile \<times> string option) list" where
  "demoCalls = [(rose, None), (lily, None), (rose\<lparr>content := [8]\<rparr>, Some ''rose.png'')]"

section \<open>Name-keyed stores\<close>

text \<open>
  A store is well keyed when no key occurs twice and every file is stored under its
  own name.
\<close>

definition wellKeyed :: "(string \<times> 'a MagickFile_scheme) list \<Rightarrow> bool" where
  "wellKeyed obj = (distinct (map fst obj) \<and> list_all (\<lambda>e. fst e = name (snd e)) obj)"

section \<open>Config normalizer: the call shapes\<close>

text \<open>
  C5 (amended). When the first argument is an array whose first element is a file and
  no second argument is given, \<open>asExecuteConfig\<close> fails, synchronously, with the
  invalid-argument error "No command given", and \<open>execute\<close> and \<open>executeOne\<close> fail
  with it before any step executes: the engine state is the one they were given. When
  a second argument other than the empty string is given, the result is the array as
  \<open>inputFiles\<close> and the argument as \<open>commands\<close>, unchecked. (The empty string is falsy,
  and \<open>!command\<close> takes it for a missing argument.)
\<close>

theorem config_shape_files_needs_command:
  "asExecuteConfig (ArgFiles (f # fs)) None = Inl NoCommandGiven
   \<and> (\<not> truthy c \<longrightarrow> asExecuteConfig (ArgFiles (f # fs)) (Some c) = Inl NoCommandGiven)
   \<and> (truthy c \<longrightarrow>
        asExecuteConfig (ArgFiles (f # fs)) (Some c) = Inr (Config (Some (f # fs)) c))
   \<and> execute env w (ArgFiles (f # fs)) None = (Inl NoCommandGiven, w)
   \<and> executeOne env w (ArgFiles (f # fs)) None = (Inl NoCommandGiven, w)"
  by (simp add: asExecuteConfig_def execute_def executeOne_def)

text \<open>The amended C5 at a non-empty and at the empty command string.\<close>

theorem config_shape_files_needs_command_witness:
  "truthy (ArgString ''identify rose.png'')
   \<and> \<not> truthy (ArgString [])
   \<and> asExecuteConfig (ArgFiles [rose]) (Some (ArgString ''identify rose.png''))
       = Inr (Config (Some [rose]) (ArgString ''identify rose.png''))
   \<and> asExecuteConfig (ArgFiles [rose]) (Some (ArgString [])) = Inl NoCommandGiven
   \<and> execute demoEnv 0 (ArgFiles [rose]) None = (Inl NoCommandGiven, 0)"
  using config_shape_files_needs_command [of rose "[]" "ArgString ''identify rose.png''" demoEnv 0]
    config_shape_files_needs_command [of rose "[]" "ArgString []" demoEnv 0]
  by simp

text \<open>
  C5 as stated fails: with the empty string as command argument the files shape is
  rejected, not turned into a configuration.
\<close>

theorem empty_command_counterexample:
  "asExecuteConfig (ArgFiles [rose]) (Some (ArgString [])) = Inl NoCommandGiven
   \<and> asExecuteConfig (ArgFiles [rose]) (Some (ArgString []))
       \<noteq> Inr (Config (Some [rose]) (ArgString []))"
  by (simp add: asExecuteConfig_def)

text \<open>
  An object whose \<open>commands\<close> is truthy is taken for an \<open>ExecuteConfig\<close> and returned as
  it is; strings and arrays, which have no such key, are not taken for one.
\<close>

lemma asExecuteConfig_config:
  "truthy (cfg_commands c) \<Longrightarrow>
   isExecuteConfig (ArgConfig c) \<and> asExecuteConfig (ArgConfig c) cmd = Inr c"
  by (simp add: asExecuteConfig_def)

lemma isExecuteConfig_other_shapes:
  "\<not> isExecuteConfig (ArgString s) \<and> \<not> isExecuteConfig (ArgCommand t)
   \<and> \<not> isExecuteConfig (ArgCommands cs) \<and> \<not> isExecuteConfig (ArgFiles fs)"
  by simp

text \<open>
  C9 on the code: the object \<open>{inputFiles: [rose], commands: ''}\<close> carries the key
  \<open>commands\<close>, yet \<open>!!arg.commands\<close> is false for it: it is not taken for an
  \<open>ExecuteConfig\<close> and not returned as the configuration. What comes back has no input
  files and the whole object as its \<open>commands\<close>. The same object with a non-empty
  command line is returned as it is.
\<close>

theorem empty_commands_config_is_not_recognised:
  "\<not> isExecuteConfig (ArgConfig (Config (Some [rose]) (ArgString [])))
   \<and> asExecuteConfig (ArgConfig (Config (Some [rose]) (ArgString []))) None
       = Inr (Config (Some []) (ArgConfig (Config (Some [rose]) (ArgString []))))
   \<and> asExecuteConfig (ArgConfig (Config (Some [rose]) (ArgString []))) None
       \<noteq> Inr (Config (Some [rose]) (ArgString []))
   \<and> isExecuteConfig (ArgConfig (Config (Some [rose]) (ArgString ''identify rose.png'')))
   \<and> asExecuteConfig (ArgConfig (Config (Some [rose]) (ArgString ''identify rose.png''))) None
       = Inr (Config (Some [rose]) (ArgString ''identify rose.png''))"
  by (simp add: asExecuteConfig_def)

section \<open>executeOne: failures are data\<close>

lemma showInt_1: "showInt 1 = ''1''"
  by code_simp

text \<open>
  C3. Whenever the call shape normalizes to a configuration whose commands normalize to
  at least one command, \<open>executeOne\<close> returns a result and raises nothing. If the
  primitive completes with a non-zero exit code, the result is the primitive's with
  the single error "exit code: N stderr: ..." built from that exit code and the joined
  stderr. If the primitive throws, the result is the default one (exit code 1, no
  output, no stdout or stderr) with the single error made of the thrown value, the
  exit code 1 and the empty joined stderr. On success \<open>errors\<close> is \<open>[undefined]\<close>.
\<close>

theorem executeOne_reports_failures_as_data:
  assumes "asExecuteConfig a cmd = Inr config"
    and "asCommand (cli env) (cfg_commands config) = c # cs"
  shows "(\<exists>r w'. executeOne env w a cmd = (Inr r, w'))
    \<and> (\<forall>result w'.
          call env w (orEmpty (cfg_inputFiles config)) (map tokenString c) = (Inr result, w')
          \<and> exitCode result \<noteq> 0 \<longrightarrow>
          executeOne env w a cmd =
            (Inr (withErrors result
                    [Some (''exit code: '' @ showInt (exitCode result) @ '' stderr: ''
                           @ joinLines (stderr result))]), w'))
    \<and> (\<forall>thrown w'.
          call env w (orEmpty (cfg_inputFiles config)) (map tokenString c) = (Inl thrown, w')
          \<longrightarrow>
          executeOne env w a cmd =
            (Inr \<lparr>stdout = [], stderr = [], exitCode = 1, outputFiles = [],
                  inputFiles = orEmpty (cfg_inputFiles config),
                  command = map tokenString c,
                  errors = [Some (thrown @ '', exit code: 1, stderr: '')]\<rparr>, w'))
    \<and> (\<forall>result w'.
          call env w (orEmpty (cfg_inputFiles config)) (map tokenString c) = (Inr result, w')
          \<and> exitCode result = 0 \<longrightarrow>
          executeOne env w a cmd = (Inr (withErrors result [None]), w'))"
  using assms
  by (auto simp: executeOne_def tryCall_def withErrors_def defaultResult_def showInt_1
      split: prod.splits sum.splits)


text \<open>C3 on the small engine: a throwing, a failing and a successful command.\<close>

theorem executeOne_reports_failures_as_data_witness:
  "executeOne demoEnv 0 (ArgConfig (Config (Some [rose]) (ArgCommand [TStr ''throw'']))) None
     = (Inr \<lparr>stdout = [], stderr = [], exitCode = 1, outputFiles = [], inputFiles = [rose],
             command = [''throw''],
             errors = [Some ''Error: boom, exit code: 1, stderr: '']\<rparr>, 1)
   \<and> executeOne demoEnv 0 (ArgFiles [rose])
         (Some (ArgCommand [TStr ''convert'', TStr ''lily.png'', TStr ''out.png'']))
     = (Inr (withErrors
               (demoResult [rose] [''convert'', ''lily.png'', ''out.png''] 1
                  [''no such file''] [])
               [Some ''exit code: 1 stderr: no such file'']), 1)
   \<and> executeOne demoEnv 0 (ArgFiles [rose])
         (Some (ArgCommand [TStr ''convert'', TStr ''rose.png'', TStr ''out.png'']))
     = (Inr (withErrors
               (demoResult [rose] [''convert'', ''rose.png'', ''out.png''] 0 []
                  [\<lparr>name = ''out.png'', blob = [1]\<rparr>])
               [None]), 1)"
proof -
  let ?t = "[TStr ''throw'']"
  let ?f = "[TStr ''convert'', TStr ''lily.png'', TStr ''out.png'']"
  let ?s = "[TStr ''convert'', TStr ''rose.png'', TStr ''out.png'']"
  have n1: "asExecuteConfig (ArgConfig (Config (Some [rose]) (ArgCommand ?t))) None
              = Inr (Config (Some [rose]) (ArgCommand ?t))"
    by (simp add: asExecuteConfig_def)
  have n2: "asExecuteConfig (ArgFiles [rose]) (Some (ArgCommand ?f))
              = Inr (Config (Some [rose]) (ArgCommand ?f))"
    by (simp add: asExecuteConfig_def)
  have n3: "asExecuteConfig (ArgFiles [rose]) (Some (ArgCommand ?s))
              = Inr (Config (Some [rose]) (ArgCommand ?s))"
    by (simp add: asExecuteConfig_def)
  have c1: "asCommand (cli demoEnv) (cfg_commands (Config (Some [rose]) (ArgCommand ?t))) = ?t # []"
    and c2: "asCommand (cli demoEnv) (cfg_commands (Config (Some [rose]) (ArgCommand ?f))) = ?f # []"
    and c3: "asCommand (cli demoEnv) (cfg_commands (Config (Some [rose]) (ArgCommand ?s))) = ?s # []"
    by (simp_all add: demoEnv_def demoCli_def)
  have k1: "call demoEnv 0 (orEmpty (cfg_inputFiles (Config (Some [rose]) (ArgCommand ?t))))
              (map tokenString ?t) = (Inl ''Error: boom'', 1)"
    by (simp add: demoEnv_def demoCall_def orEmpty_def)
  have k2: "call demoEnv 0 (orEmpty (cfg_inputFiles (Config (Some [rose]) (ArgCommand ?f))))
              (map tokenString ?f)
              = (Inr (demoResult [rose] [''convert'', ''lily.png'', ''out.png''] 1
                        [''no such file''] []), 1)"
    by (simp add: demoEnv_def demoCall_def orEmpty_def rose_def)
  have k3: "call demoEnv 0 (orEmpty (cfg_inputFiles (Config (Some [rose]) (ArgCommand ?s))))
              (map tokenString ?s)
              = (Inr (demoResult [rose] [''convert'', ''rose.png'', ''out.png''] 0 []
                        [\<lparr>name = ''out.png'', blob = [1]\<rparr>]), 1)"
    by (simp add: demoEnv_def demoCall_def orEmpty_def rose_def)
  have e2: "exitCode (demoResult [rose] [''convert'', ''lily.png'', ''out.png''] 1
                        [''no such file''] []) \<noteq> 0"
    and e3: "exitCode (demoResult [rose] [''convert'', ''rose.png'', ''out.png''] 0 []
                        [\<lparr>name = ''out.png'', blob = [1]\<rparr>]) = 0"
    and m2: "''exit code: '' @ showInt (exitCode (demoResult [rose]
                 [''convert'', ''lily.png'', ''out.png''] 1 [''no such file''] []))
               @ '' stderr: '' @ joinLines (stderr (demoResult [rose]
                 [''convert'', ''lily.png'', ''out.png''] 1 [''no such file''] []))
             = ''exit code: 1 stderr: no such file''"
    by (simp_all add: demoResult_def showInt_1)
  show ?thesis
    using executeOne_reports_failures_as_data [OF n1 c1, of 0]
      executeOne_reports_failures_as_data [OF n2 c2, of 0]
      executeOne_reports_failures_as_data [OF n3 c3, of 0]
      k1 k2 k3 e2 e3 m2
    by (simp add: orEmpty_def)
qed

section \<open>execute: every step runs, in order\<close>

lemma asExecuteConfig_thisConfig:
  "asExecuteConfig (thisConfig st c) None
     = Inr (Config (Some (values_of (allInputFiles st))) (ArgCommands [c]))"
  by (simp add: asExecuteConfig_def thisConfig_def)

lemma executeOne_thisConfig:
  "executeOne env w (thisConfig st c) None
     = (Inr (fst (tryCall env w (values_of (allInputFiles st)) c)),
        snd (tryCall env w (values_of (allInputFiles st)) c))"
  by (simp add: executeOne_def asExecuteConfig_thisConfig orEmpty_def split: prod.splits)

lemma mapper_runStep: "mapper env st c = Inr (runStep env st c)"
  by (simp add: mapper_def runStep_def executeOne_thisConfig split: prod.splits)

lemma pMapSerial_mapper:
  "pMapSerial (mapper env) st cmds = Inr (foldl (runStep env) st cmds)"
  by (induction cmds arbitrary: st) (simp_all add: mapper_runStep)

lemma execute_returns:
  assumes "asExecuteConfig a cmd = Inr config"
  shows "execute env w a cmd =
     (Inr (finish (orEmpty (cfg_inputFiles config)) (asCommand (cli env) (cfg_commands config))
             (batchBefore env w (orEmpty (cfg_inputFiles config))
                (asCommand (cli env) (cfg_commands config))
                (length (asCommand (cli env) (cfg_commands config))))),
      engine (batchBefore env w (orEmpty (cfg_inputFiles config))
                (asCommand (cli env) (cfg_commands config))
                (length (asCommand (cli env) (cfg_commands config)))))"
  using assms by (simp add: execute_def pMapSerial_mapper batchBefore_def)

lemma batchBefore_Suc:
  "k < length cmds \<Longrightarrow>
   batchBefore env w fs cmds (Suc k) = runStep env (batchBefore env w fs cmds k) (cmds ! k)"
  by (simp add: batchBefore_def take_Suc_conv_app_nth)

lemma resultsAcc_runStep:
  "resultsAcc (runStep env st c)
     = resultsAcc st @ [fst (tryCall env (engine st) (values_of (allInputFiles st)) c)]"
  by (simp add: runStep_def absorb_def split: prod.splits)

lemma engine_runStep:
  "engine (runStep env st c) = snd (tryCall env (engine st) (values_of (allInputFiles st)) c)"
  by (simp add: runStep_def absorb_def split: prod.splits)

lemma allInputFiles_runStep:
  "allInputFiles (runStep env st c)
     = putAll (allInputFiles st)
         (map (asInputFile (readBlob env))
            (completionOrder env (length (resultsAcc st))
               (outputFiles (fst (tryCall env (engine st) (values_of (allInputFiles st)) c)))))"
  by (simp add: runStep_def absorb_def split: prod.splits)

lemma allOutputFiles_runStep:
  "allOutputFiles (runStep env st c)
     = putAll (allOutputFiles st)
         (outputFiles (fst (tryCall env (engine st) (values_of (allInputFiles st)) c)))"
  by (simp add: runStep_def absorb_def split: prod.splits)

lemma length_resultsAcc_foldl:
  "length (resultsAcc (foldl (runStep env) st cmds)) = length (resultsAcc st) + length cmds"
  by (induction cmds arbitrary: st) (simp_all add: resultsAcc_runStep)

lemma length_resultsAcc_batchBefore:
  "length (resultsAcc (batchBefore env w fs cmds k)) = min k (length cmds)"
  by (simp add: batchBefore_def length_resultsAcc_foldl initBatch_def min.commute)

lemma resultsAcc_batchBefore_nth:
  assumes "k < length cmds" and "k < n"
  shows "resultsAcc (batchBefore env w fs cmds n) ! k
           = fst (tryCall env (engine (batchBefore env w fs cmds k))
                    (stepInputs env w fs cmds k) (cmds ! k))"
  using assms(2,1)
proof (induction n)
  case 0
  then show ?case by simp
next
  case (Suc n)
  show ?case
  proof (cases "n < length cmds")
    case True
    have len: "length (resultsAcc (batchBefore env w fs cmds n)) = n"
      using True by (simp add: length_resultsAcc_batchBefore)
    show ?thesis
    proof (cases "k = n")
      case True
      with \<open>n < length cmds\<close> len show ?thesis
        by (simp add: batchBefore_Suc resultsAcc_runStep stepInputs_def nth_append)
    next
      case False
      with Suc have "k < n" by simp
      with Suc \<open>n < length cmds\<close> len show ?thesis
        by (simp add: batchBefore_Suc resultsAcc_runStep nth_append)
    qed
  next
    case False
    then have "batchBefore env w fs cmds (Suc n) = batchBefore env w fs cmds n"
      by (simp add: batchBefore_def)
    moreover from False Suc have "k < n" by simp
    ultimately show ?thesis using Suc by simp
  qed
qed

lemma find_first_index:
  "k < length xs \<Longrightarrow> P (xs ! k) \<Longrightarrow> (\<And>j. j < k \<Longrightarrow> \<not> P (xs ! j)) \<Longrightarrow> find P xs = Some (xs ! k)"
proof (induction xs arbitrary: k)
  case Nil
  then show ?case by simp
next
  case (Cons x xs)
  show ?case
  proof (cases k)
    case 0
    with Cons.prems show ?thesis by simp
  next
    case (Suc k')
    have "\<not> P x" using Cons.prems(3) [of 0] Suc by simp
    moreover have "find P xs = Some (xs ! k')"
    proof (rule Cons.IH)
      show "k' < length xs" using Cons.prems(1) Suc by simp
      show "P (xs ! k')" using Cons.prems(2) Suc by simp
      show "\<not> P (xs ! j)" if "j < k'" for j
        using Cons.prems(3) [of "Suc j"] that Suc by simp
    qed
    ultimately show ?thesis using Suc by simp
  qed
qed

lemma aggregateExitCode_first:
  assumes "k < length rs" and "exitCode (rs ! k) \<noteq> 0"
    and "\<And>j. j < k \<Longrightarrow> exitCode (rs ! j) = 0"
  shows "aggregateExitCode rs = exitCode (rs ! k)"
proof -
  have "find (\<lambda>r. exitCode r \<noteq> 0) rs = Some (rs ! k)"
    using assms by (intro find_first_index) simp_all
  then show ?thesis by (simp add: aggregateExitCode_def)
qed

lemma aggregateExitCode_all_zero:
  assumes "\<And>r. r \<in> set rs \<Longrightarrow> exitCode r = 0"
  shows "aggregateExitCode rs = 0"
proof -
  have "find (\<lambda>r. exitCode r \<noteq> 0) rs = None"
    using assms by (simp add: find_None_iff)
  then show ?thesis by (simp add: aggregateExitCode_def)
qed

section \<open>The aggregate exit code\<close>

text \<open>
  C2. Whenever the call shape normalizes, \<open>execute\<close> returns a result whose \<open>results\<close>
  holds one result per command, the result at index \<open>k\<close> being that of step \<open>k\<close>
  (execution order). The aggregate exit code is the exit code of the first result,
  from the front, whose exit code is non-zero, whatever the later results are, and 0
  if every result has exit code 0.
\<close>

theorem aggregate_exit_code_first_failure:
  assumes "asExecuteConfig a cmd = Inr config"
  shows "\<exists>res w'. execute env w a cmd = (Inr res, w')
    \<and> length (results res) = length (asCommand (cli env) (cfg_commands config))
    \<and> (\<forall>k<length (results res).
          results res ! k
            = fst (tryCall env
                (engine (batchBefore env w (orEmpty (cfg_inputFiles config))
                           (asCommand (cli env) (cfg_commands config)) k))
                (stepInputs env w (orEmpty (cfg_inputFiles config))
                   (asCommand (cli env) (cfg_commands config)) k)
                (asCommand (cli env) (cfg_commands config) ! k)))
    \<and> (\<forall>k<length (results res).
          exitCode (results res ! k) \<noteq> 0 \<and> (\<forall>j<k. exitCode (results res ! j) = 0)
          \<longrightarrow> exitCode res = exitCode (results res ! k))
    \<and> ((\<forall>r\<in>set (results res). exitCode r = 0) \<longrightarrow> exitCode res = 0)"
proof -
  let ?fs = "orEmpty (cfg_inputFiles config)"
  let ?cmds = "asCommand (cli env) (cfg_commands config)"
  let ?st = "batchBefore env w ?fs ?cmds (length ?cmds)"
  let ?res = "finish ?fs ?cmds ?st"
  have ex: "execute env w a cmd = (Inr ?res, engine ?st)"
    using assms by (rule execute_returns)
  have rs: "results ?res = resultsAcc ?st" and ec: "exitCode ?res = aggregateExitCode (resultsAcc ?st)"
    by (simp_all add: finish_def)
  have len: "length (results ?res) = length ?cmds"
    by (simp add: rs length_resultsAcc_batchBefore)
  have nth: "results ?res ! k
      = fst (tryCall env (engine (batchBefore env w ?fs ?cmds k))
               (stepInputs env w ?fs ?cmds k) (?cmds ! k))"
    if "k < length (results ?res)" for k
    using that len by (simp add: rs resultsAcc_batchBefore_nth)
  have first: "exitCode ?res = exitCode (results ?res ! k)"
    if "k < length (results ?res)" "exitCode (results ?res ! k) \<noteq> 0"
      "\<forall>j<k. exitCode (results ?res ! j) = 0" for k
    using that unfolding rs ec by (intro aggregateExitCode_first) simp_all
  have zero: "exitCode ?res = 0" if "\<forall>r\<in>set (results ?res). exitCode r = 0"
    using that unfolding rs ec by (intro aggregateExitCode_all_zero) simp
  show ?thesis
    using ex len nth first zero by blast
qed

text \<open>
  C2 on the three-step batch: the exit codes are 0, 1, 2 and the aggregate is 1, the
  second step's.
\<close>

theorem aggregate_exit_code_first_failure_witness:
  "map exitCode (results (projr (fst (execute demoEnv 0 demoBatch None)))) = [0, 1, 2]
   \<and> exitCode (projr (fst (execute demoEnv 0 demoBatch None))) = 1"
proof -
  have h: "asExecuteConfig demoBatch None
    = Inr (Config (Some [rose]) (ArgCommands
       [[TStr ''convert'', TStr ''rose.png'', TStr ''mid.png''],
        [TStr ''convert'', TStr ''lily.png'', TStr ''out.png''],
        [TStr ''bogus'']]))"
    by (simp add: asExecuteConfig_def demoBatch_def)
  obtain res w' where ex: "execute demoEnv 0 demoBatch None = (Inr res, w')"
    and first: "\<forall>k<length (results res).
          exitCode (results res ! k) \<noteq> 0 \<and> (\<forall>j<k. exitCode (results res ! j) = 0)
          \<longrightarrow> exitCode res = exitCode (results res ! k)"
    using aggregate_exit_code_first_failure [OF h, of demoEnv 0] by blast
  have "map exitCode (results (projr (fst (execute demoEnv 0 demoBatch None)))) = [0, 1, 2]"
    by code_simp
  then have codes: "map exitCode (results res) = [0, 1, 2]"
    using ex by simp
  then have len: "length (results res) = 3"
    by (metis length_map length_Cons list.size(3) numeral_3_eq_3)
  have e0: "exitCode (results res ! 0) = 0" and e1: "exitCode (results res ! 1) = 1"
    using codes len by (metis nth_map nth_Cons_0 zero_less_numeral,
        metis nth_map nth_Cons_0 nth_Cons_Suc One_nat_def one_less_numeral_iff semiring_norm(77))
  have "\<forall>j<(1::nat). exitCode (results res ! j) = 0"
    using e0 by simp
  moreover have "(1::nat) < length (results res)"
    using len by simp
  ultimately have "exitCode res = exitCode (results res ! 1)"
    using first e1 by (metis one_neq_zero)
  with e1 codes ex show ?thesis by simp
qed

section \<open>A failing step does not stop the batch\<close>

lemma snd_tryCall: "snd (tryCall env w fs c) = snd (call env w fs (map tokenString c))"
  by (simp add: tryCall_def split: prod.splits sum.splits)

text \<open>
  C4 (amended). A failing step does not halt the batch. Whenever the call shape
  normalizes, \<open>execute\<close> returns, \<open>commands\<close> is the normalized command list and
  \<open>results\<close> has one entry per command. Every step \<open>k\<close> is executed, whatever the
  exit codes of the steps before it: its result is that of the primitive called on
  the engine state and the pool the earlier steps left, and the engine state after it
  is the one this call leaves.
\<close>

theorem every_step_runs_despite_failures:
  assumes "asExecuteConfig a cmd = Inr config"
  shows "\<exists>res w'. execute env w a cmd = (Inr res, w')
    \<and> commands res = asCommand (cli env) (cfg_commands config)
    \<and> length (results res) = length (commands res)
    \<and> w' = engine (batchBefore env w (orEmpty (cfg_inputFiles config)) (commands res)
                     (length (commands res)))
    \<and> (\<forall>k<length (commands res).
          results res ! k
            = fst (tryCall env
                (engine (batchBefore env w (orEmpty (cfg_inputFiles config)) (commands res) k))
                (stepInputs env w (orEmpty (cfg_inputFiles config)) (commands res) k)
                (commands res ! k))
          \<and> engine (batchBefore env w (orEmpty (cfg_inputFiles config)) (commands res) (Suc k))
            = snd (call env
                (engine (batchBefore env w (orEmpty (cfg_inputFiles config)) (commands res) k))
                (stepInputs env w (orEmpty (cfg_inputFiles config)) (commands res) k)
                (map tokenString (commands res ! k))))"
proof -
  let ?fs = "orEmpty (cfg_inputFiles config)"
  let ?cmds = "asCommand (cli env) (cfg_commands config)"
  let ?st = "batchBefore env w ?fs ?cmds (length ?cmds)"
  let ?res = "finish ?fs ?cmds ?st"
  have ex: "execute env w a cmd = (Inr ?res, engine ?st)"
    using assms by (rule execute_returns)
  have cs: "commands ?res = ?cmds" and rs: "results ?res = resultsAcc ?st"
    by (simp_all add: finish_def)
  have len: "length (results ?res) = length (commands ?res)"
    by (simp add: cs rs length_resultsAcc_batchBefore)
  have step: "results ?res ! k
        = fst (tryCall env (engine (batchBefore env w ?fs ?cmds k))
                 (stepInputs env w ?fs ?cmds k) (?cmds ! k))
      \<and> engine (batchBefore env w ?fs ?cmds (Suc k))
        = snd (call env (engine (batchBefore env w ?fs ?cmds k))
                 (stepInputs env w ?fs ?cmds k) (map tokenString (?cmds ! k)))"
    if "k < length ?cmds" for k
    using that
    by (simp add: rs resultsAcc_batchBefore_nth batchBefore_Suc engine_runStep snd_tryCall
        stepInputs_def)
  show ?thesis
    apply (rule exI [of _ ?res])
    apply (rule exI [of _ "engine ?st"])
    apply (simp only: cs)
    using ex len step unfolding cs by blast
qed

text \<open>The amended C4 on the three-step batch: three results, three calls of the engine.\<close>

theorem every_step_runs_despite_failures_witness:
  "length (results (projr (fst (execute demoEnv 0 demoBatch None)))) = 3
   \<and> snd (execute demoEnv 0 demoBatch None) = 3"
proof -
  have h: "asExecuteConfig demoBatch None
    = Inr (Config (Some [rose]) (ArgCommands
       [[TStr ''convert'', TStr ''rose.png'', TStr ''mid.png''],
        [TStr ''convert'', TStr ''lily.png'', TStr ''out.png''],
        [TStr ''bogus'']]))"
    by (simp add: asExecuteConfig_def demoBatch_def)
  obtain res w' where ex: "execute demoEnv 0 demoBatch None = (Inr res, w')"
    and cs: "commands res = asCommand (cli demoEnv) (cfg_commands (Config (Some [rose])
       (ArgCommands
         [[TStr ''convert'', TStr ''rose.png'', TStr ''mid.png''],
          [TStr ''convert'', TStr ''lily.png'', TStr ''out.png''],
          [TStr ''bogus'']])))"
    and len: "length (results res) = length (commands res)"
    using every_step_runs_despite_failures [OF h, of demoEnv 0] by blast
  have "length (results res) = 3"
    using cs len by simp
  moreover have "snd (execute demoEnv 0 demoBatch None) = 3"
    by code_simp
  ultimately show ?thesis using ex by simp
qed

text \<open>
  C4 as stated fails: in the three-step batch the second step fails with exit code 1,
  yet the third step is executed (its result is there, the engine was called three
  times) and \<open>results\<close> is as long as the command list.
\<close>

theorem halts_after_failure_counterexample:
  "\<not> isl (fst (execute demoEnv 0 demoBatch None))
   \<and> exitCode (results (projr (fst (execute demoEnv 0 demoBatch None))) ! 1) = 1
   \<and> length (commands (projr (fst (execute demoEnv 0 demoBatch None)))) = 3
   \<and> length (results (projr (fst (execute demoEnv 0 demoBatch None)))) = 3
   \<and> command (results (projr (fst (execute demoEnv 0 demoBatch None))) ! 2) = [''bogus'']
   \<and> snd (execute demoEnv 0 demoBatch None) = 3"
  by code_simp

section \<open>At most one file per name\<close>

lemma update_keys_names:
  "list_all (\<lambda>e. fst e = name (snd e)) obj \<Longrightarrow>
   list_all (\<lambda>e. fst e = name (snd e)) (AList.update (name f) f obj)"
  by (induction obj) auto

lemma wellKeyed_assign: "wellKeyed obj \<Longrightarrow> wellKeyed (assign (name f) f obj)"
  by (simp add: wellKeyed_def assign_def update_keys_names distinct_update)

lemma values_of_names:
  "list_all (\<lambda>e. fst e = name (snd e)) obj \<Longrightarrow> map name (values_of obj) = map fst obj"
  by (induction obj) (simp_all add: values_of_def)

lemma wellKeyed_putAll: "wellKeyed obj \<Longrightarrow> wellKeyed (putAll obj fs)"
  unfolding putAll_def
  by (induction fs arbitrary: obj) (simp_all add: wellKeyed_assign)

lemma wellKeyed_Nil: "wellKeyed []"
  by (simp add: wellKeyed_def)

lemma wellKeyed_values: "wellKeyed obj \<Longrightarrow> distinct (map name (values_of obj))"
  by (simp add: wellKeyed_def values_of_names)

lemma wellKeyed_foldl_runStep:
  "wellKeyed (allInputFiles st) \<and> wellKeyed (allOutputFiles st) \<Longrightarrow>
   wellKeyed (allInputFiles (foldl (runStep env) st cmds))
   \<and> wellKeyed (allOutputFiles (foldl (runStep env) st cmds))"
  by (induction cmds arbitrary: st)
    (simp_all add: allInputFiles_runStep allOutputFiles_runStep wellKeyed_putAll)

lemma wellKeyed_batchBefore:
  "wellKeyed (allInputFiles (batchBefore env w fs cmds k))
   \<and> wellKeyed (allOutputFiles (batchBefore env w fs cmds k))"
  unfolding batchBefore_def
  by (rule wellKeyed_foldl_runStep) (simp add: initBatch_def wellKeyed_putAll wellKeyed_Nil)

text \<open>
  C10. Whenever the call shape normalizes, \<open>execute\<close> returns a result whose
  \<open>outputFiles\<close> holds at most one file per name, and the input-file list handed to
  each step \<open>k\<close> (the list the primitive is called with for the result at index
  \<open>k\<close>) holds at most one file per name.
\<close>

theorem one_file_per_name:
  assumes "asExecuteConfig a cmd = Inr config"
  shows "\<exists>res w'. execute env w a cmd = (Inr res, w')
    \<and> distinct (map name (outputFiles res))
    \<and> (\<forall>k<length (commands res).
          distinct (map name (stepInputs env w (orEmpty (cfg_inputFiles config)) (commands res) k))
          \<and> results res ! k
              = fst (tryCall env
                  (engine (batchBefore env w (orEmpty (cfg_inputFiles config)) (commands res) k))
                  (stepInputs env w (orEmpty (cfg_inputFiles config)) (commands res) k)
                  (commands res ! k)))"
proof -
  let ?fs = "orEmpty (cfg_inputFiles config)"
  let ?cmds = "asCommand (cli env) (cfg_commands config)"
  let ?st = "batchBefore env w ?fs ?cmds (length ?cmds)"
  let ?res = "finish ?fs ?cmds ?st"
  have ex: "execute env w a cmd = (Inr ?res, engine ?st)"
    using assms by (rule execute_returns)
  have cs: "commands ?res = ?cmds" and rs: "results ?res = resultsAcc ?st"
    and os: "outputFiles ?res = values_of (allOutputFiles ?st)"
    by (simp_all add: finish_def)
  have outs: "distinct (map name (outputFiles ?res))"
    unfolding os by (intro wellKeyed_values wellKeyed_batchBefore [THEN conjunct2])
  have ins: "distinct (map name (stepInputs env w ?fs ?cmds k))" for k
    unfolding stepInputs_def by (intro wellKeyed_values wellKeyed_batchBefore [THEN conjunct1])
  have step: "results ?res ! k
        = fst (tryCall env (engine (batchBefore env w ?fs ?cmds k))
                 (stepInputs env w ?fs ?cmds k) (?cmds ! k))"
    if "k < length ?cmds" for k
    using that by (simp add: rs resultsAcc_batchBefore_nth)
  show ?thesis
    apply (rule exI [of _ ?res])
    apply (rule exI [of _ "engine ?st"])
    apply (simp only: cs)
    using ex outs ins step by blast
qed

text \<open>
  C10 on the batch with two caller files named \<open>rose.png\<close> and two steps writing
  \<open>out.png\<close>: one output file, and the later caller file is the one a step sees.
\<close>

theorem one_file_per_name_witness:
  "distinct (map name (outputFiles (projr (fst (execute demoEnv 0 demoTwice None)))))
   \<and> map name (outputFiles (projr (fst (execute demoEnv 0 demoTwice None)))) = [''out.png'']
   \<and> map exitCode (results (projr (fst (execute demoEnv 0 demoTwice None)))) = [0, 0]
   \<and> stepInputs demoEnv 0 [rose, rose\<lparr>content := [8]\<rparr>] [[TStr ''identify'']] 0
       = [rose\<lparr>content := [8]\<rparr>]"
proof -
  have h: "asExecuteConfig demoTwice None
    = Inr (Config (Some [rose, rose\<lparr>content := [8]\<rparr>]) (ArgCommands
     [[TStr ''convert'', TStr ''rose.png'', TStr ''out.png''],
      [TStr ''convert'', TStr ''rose.png'', TStr ''out.png'']]))"
    by (simp add: asExecuteConfig_def demoTwice_def)
  obtain res w' where ex: "execute demoEnv 0 demoTwice None = (Inr res, w')"
    and d: "distinct (map name (outputFiles res))"
    using one_file_per_name [OF h, of demoEnv 0] by blast
  have a: "map name (outputFiles (projr (fst (execute demoEnv 0 demoTwice None)))) = [''out.png'']"
    by code_simp
  have b: "map exitCode (results (projr (fst (execute demoEnv 0 demoTwice None)))) = [0, 0]"
    by code_simp
  have c: "stepInputs demoEnv 0 [rose, rose\<lparr>content := [8]\<rparr>] [[TStr ''identify'']] 0
       = [rose\<lparr>content := [8]\<rparr>]"
    by code_simp
  from ex d a b c show ?thesis
    by simp
qed

section \<open>The pool of available inputs\<close>

lemma latestByName_append: "latestByName (xs @ ys) = latestByName xs ++ latestByName ys"
  by (simp add: latestByName_def)

lemma latestByName_Nil: "latestByName [] = Map.empty"
  by (simp add: latestByName_def)

lemma dom_latestByName: "dom (latestByName xs) = name ` set xs"
  by (simp add: latestByName_def dom_map_of_conv_image_fst image_image)

lemma latestByName_SomeD: "latestByName xs n = Some y \<Longrightarrow> y \<in> set xs \<and> name y = n"
  unfolding latestByName_def by (drule map_of_SomeD) auto

lemma latestByName_unique:
  assumes "x \<in> set xs" and "\<And>y. y \<in> set xs \<Longrightarrow> name y = name x \<Longrightarrow> y = x"
  shows "latestByName xs (name x) = Some x"
proof -
  have "name x \<in> dom (latestByName xs)"
    using assms(1) by (simp add: dom_latestByName)
  then obtain y where y: "latestByName xs (name x) = Some y"
    by blast
  then have "y \<in> set xs \<and> name y = name x"
    by (rule latestByName_SomeD)
  then have "y = x"
    using assms(2) by blast
  with y show ?thesis by simp
qed

lemma ownNamed_append: "ownNamed (xs @ ys) = ownNamed xs @ ownNamed ys"
  by (simp add: ownNamed_def)

lemma names_ownNamed: "name ` set (ownNamed xs) = name ` set xs - {''__proto__''}"
  by (auto simp: ownNamed_def)

lemma map_of_putAll: "map_of (putAll obj fs) = map_of obj ++ latestByName (ownNamed fs)"
proof (induction fs arbitrary: obj)
  case Nil
  then show ?case by (simp add: putAll_def latestByName_Nil ownNamed_def)
next
  case (Cons f fs)
  have step: "map_of (putAll obj (f # fs)) = map_of (assign (name f) f obj) ++ latestByName (ownNamed fs)"
    using Cons.IH [of "assign (name f) f obj"] by (simp add: putAll_def)
  show ?case
  proof (cases "name f = ''__proto__''")
    case True
    then show ?thesis
      using step by (simp add: assign_def ownNamed_def)
  next
    case False
    then have "map_of (assign (name f) f obj) = map_of obj ++ latestByName [f]"
      by (simp add: assign_def update_conv' latestByName_def)
    then have "map_of (putAll obj (f # fs))
                 = map_of obj ++ latestByName ([f] @ ownNamed fs)"
      using step by (simp only: latestByName_append map_add_assoc)
    with False show ?thesis
      by (simp add: ownNamed_def)
  qed
qed

lemma wellKeyed_ran: "wellKeyed obj \<Longrightarrow> set (values_of obj) = ran (map_of obj)"
  by (simp add: wellKeyed_def values_of_def ran_distinct)

lemma absorbedFiles_snoc:
  "absorbedFiles env (rs @ [r])
     = absorbedFiles env rs
       @ map (asInputFile (readBlob env)) (completionOrder env (length rs) (outputFiles r))"
  by (simp add: absorbedFiles_def enumerate_append_eq)

lemma names_absorbedFiles:
  "name ` set (absorbedFiles env rs) = (\<Union>r\<in>set rs. name ` set (outputFiles r))"
proof (induction rs rule: rev_induct)
  case Nil
  then show ?case by (simp add: absorbedFiles_def)
next
  case (snoc r rs)
  have "name ` set (map (asInputFile (readBlob env))
                      (completionOrder env (length rs) (outputFiles r)))
          = name ` set (outputFiles r)"
    by (simp add: completionOrder_def image_image asInputFile_def)
  with snoc show ?case
    by (simp add: absorbedFiles_snoc image_Un Un_commute)
qed

lemma pool_batchBefore:
  "map_of (allInputFiles (batchBefore env w fs cmds k))
     = latestByName
         (ownNamed (fs @ absorbedFiles env (resultsAcc (batchBefore env w fs cmds k))))"
proof (induction k)
  case 0
  show ?case
    by (simp add: batchBefore_def initBatch_def map_of_putAll absorbedFiles_def)
next
  case (Suc k)
  show ?case
  proof (cases "k < length cmds")
    case True
    then show ?thesis
      by (simp add: batchBefore_Suc allInputFiles_runStep resultsAcc_runStep map_of_putAll
          Suc.IH absorbedFiles_snoc latestByName_append ownNamed_append)
  next
    case False
    then have "batchBefore env w fs cmds (Suc k) = batchBefore env w fs cmds k"
      by (simp add: batchBefore_def)
    with Suc.IH show ?thesis by simp
  qed
qed

lemma resultsAcc_foldl_prefix:
  "take (length (resultsAcc st)) (resultsAcc (foldl (runStep env) st cmds)) = resultsAcc st"
  by (induction cmds arbitrary: st rule: rev_induct)
    (simp_all add: resultsAcc_runStep length_resultsAcc_foldl)

lemma resultsAcc_batchBefore_take:
  assumes "k \<le> n"
  shows "resultsAcc (batchBefore env w fs cmds k)
           = take k (resultsAcc (batchBefore env w fs cmds n))"
proof (cases "k \<le> length cmds")
  case True
  have "take n cmds = take k cmds @ drop k (take n cmds)"
    using assms by (metis append_take_drop_id min.absorb_iff1 take_take)
  then have "foldl (runStep env) (initBatch w fs) (take n cmds)
      = foldl (runStep env) (initBatch w fs) (take k cmds @ drop k (take n cmds))"
    by (rule arg_cong)
  then have "batchBefore env w fs cmds n
      = foldl (runStep env) (batchBefore env w fs cmds k) (drop k (take n cmds))"
    by (simp only: batchBefore_def foldl_append)
  moreover have "length (resultsAcc (batchBefore env w fs cmds k)) = k"
    using True by (simp add: length_resultsAcc_batchBefore)
  ultimately show ?thesis
    using resultsAcc_foldl_prefix [of "batchBefore env w fs cmds k" env "drop k (take n cmds)"]
    by simp
next
  case False
  then have "batchBefore env w fs cmds k = batchBefore env w fs cmds n"
    using assms by (simp add: batchBefore_def)
  moreover have "length (resultsAcc (batchBefore env w fs cmds n)) \<le> k"
    using False by (simp add: length_resultsAcc_batchBefore)
  ultimately show ?thesis by simp
qed

lemma stepInputs_ran:
  "set (stepInputs env w fs cmds k)
     = ran (latestByName
         (ownNamed (fs @ absorbedFiles env (resultsAcc (batchBefore env w fs cmds k)))))"
  unfolding stepInputs_def
  by (simp add: wellKeyed_ran [OF wellKeyed_batchBefore [THEN conjunct1]] pool_batchBefore)

lemma stepInputs_names:
  "name ` set (stepInputs env w fs cmds k)
     = (name ` set fs
        \<union> (\<Union>r\<in>set (resultsAcc (batchBefore env w fs cmds k)). name ` set (outputFiles r)))
       - {''__proto__''}"
proof -
  let ?obj = "allInputFiles (batchBefore env w fs cmds k)"
  let ?all = "fs @ absorbedFiles env (resultsAcc (batchBefore env w fs cmds k))"
  have wk: "wellKeyed ?obj"
    by (rule wellKeyed_batchBefore [THEN conjunct1])
  then have "map name (values_of ?obj) = map fst ?obj"
    by (simp add: wellKeyed_def values_of_names)
  then have "name ` set (values_of ?obj) = fst ` set ?obj"
    by (metis set_map)
  also have "\<dots> = dom (map_of ?obj)"
    by (simp add: dom_map_of_conv_image_fst)
  also have "\<dots> = name ` set (ownNamed ?all)"
    by (simp only: pool_batchBefore dom_latestByName)
  also have "\<dots> = name ` set ?all - {''__proto__''}"
    by (rule names_ownNamed)
  finally show ?thesis
    by (simp add: stepInputs_def image_Un names_absorbedFiles)
qed

lemma stepInputs_absorbs_output:
  assumes "k < length cmds"
    and "out \<in> set (outputFiles (fst (tryCall env (engine (batchBefore env w fs cmds k))
                                     (stepInputs env w fs cmds k) (cmds ! k))))"
    and "\<forall>o'\<in>set (outputFiles (fst (tryCall env (engine (batchBefore env w fs cmds k))
                                     (stepInputs env w fs cmds k) (cmds ! k)))).
           name o' = name out \<longrightarrow> o' = out"
    and "name out \<noteq> ''__proto__''"
  shows "asInputFile (readBlob env) out \<in> set (stepInputs env w fs cmds (Suc k))"
proof -
  let ?st = "batchBefore env w fs cmds k"
  let ?r = "fst (tryCall env (engine ?st) (stepInputs env w fs cmds k) (cmds ! k))"
  let ?new = "map (asInputFile (readBlob env))
                (completionOrder env (length (resultsAcc ?st)) (outputFiles ?r))"
  let ?x = "asInputFile (readBlob env) out"
  have obj: "allInputFiles (batchBefore env w fs cmds (Suc k)) = putAll (allInputFiles ?st) ?new"
    using assms(1) by (simp add: batchBefore_Suc allInputFiles_runStep stepInputs_def)
  have nx: "name ?x = name out"
    by (simp add: asInputFile_def)
  have "?x \<in> set ?new"
    using assms(2) by (simp add: completionOrder_def)
  then have mem: "?x \<in> set (ownNamed ?new)"
    using assms(4) nx by (simp add: ownNamed_def)
  have uniq: "y = ?x" if "y \<in> set (ownNamed ?new)" "name y = name ?x" for y
  proof -
    from that(1) obtain o' where o': "o' \<in> set (outputFiles ?r)" "y = asInputFile (readBlob env) o'"
      by (auto simp: completionOrder_def ownNamed_def)
    with that(2) have "name o' = name out"
      by (simp add: asInputFile_def)
    with assms(3) o' show ?thesis by blast
  qed
  have "latestByName (ownNamed ?new) (name ?x) = Some ?x"
    using mem uniq by (rule latestByName_unique)
  then have "map_of (putAll (allInputFiles ?st) ?new) (name ?x) = Some ?x"
    by (simp add: map_of_putAll)
  then have "?x \<in> ran (map_of (allInputFiles (batchBefore env w fs cmds (Suc k))))"
    unfolding obj by (rule ranI)
  then show ?thesis
    unfolding stepInputs_def
    by (simp add: wellKeyed_ran [OF wellKeyed_batchBefore [THEN conjunct1]])
qed

text \<open>
  What the code does, for every batch. Whenever the call shape normalizes, with \<open>fs\<close>
  the caller-supplied input files and \<open>cmds\<close> the normalized commands, for every step
  \<open>k\<close>: the result at index \<open>k\<close> is that of the primitive called with the step's
  available inputs on the engine state step \<open>k - 1\<close> left, and step \<open>k + 1\<close> starts
  from the state obtained by absorbing this result (steps run one after the other, in
  source order). The available inputs of step \<open>k\<close> are, name by name, the latest file
  among the caller's files followed by the files absorbed from the results of the
  steps before \<open>k\<close>, in step order, the files named \<open>__proto__\<close> left out. An output
  of step \<open>k\<close> not named \<open>__proto__\<close>, whose name no other output of that step bears,
  is, converted, among the inputs of step \<open>k + 1\<close>.
\<close>

lemma step_inputs_characterised:
  assumes "asExecuteConfig a cmd = Inr config"
    and "fs = orEmpty (cfg_inputFiles config)"
    and "cmds = asCommand (cli env) (cfg_commands config)"
    and "k < length cmds"
  shows "\<exists>res w'. execute env w a cmd = (Inr res, w')
    \<and> results res ! k
        = fst (tryCall env (engine (batchBefore env w fs cmds k))
                 (stepInputs env w fs cmds k) (cmds ! k))
    \<and> batchBefore env w fs cmds (Suc k)
        = absorb env (batchBefore env w fs cmds k) (results res ! k)
            (snd (call env (engine (batchBefore env w fs cmds k))
                    (stepInputs env w fs cmds k) (map tokenString (cmds ! k))))
    \<and> map_of (allInputFiles (batchBefore env w fs cmds k))
        = latestByName (ownNamed (fs @ absorbedFiles env (take k (results res))))
    \<and> set (stepInputs env w fs cmds k)
        = ran (latestByName (ownNamed (fs @ absorbedFiles env (take k (results res)))))
    \<and> name ` set (stepInputs env w fs cmds k)
        = (name ` set fs \<union> (\<Union>r\<in>set (take k (results res)). name ` set (outputFiles r)))
          - {''__proto__''}
    \<and> (\<forall>out\<in>set (outputFiles (results res ! k)).
          name out \<noteq> ''__proto__''
          \<and> (\<forall>o'\<in>set (outputFiles (results res ! k)). name o' = name out \<longrightarrow> o' = out)
          \<longrightarrow> asInputFile (readBlob env) out \<in> set (stepInputs env w fs cmds (Suc k)))
    \<and> (\<forall>cmds'. name ` set (stepInputs env w fs cmds' 0) = name ` set fs - {''__proto__''})"
proof -
  let ?st = "batchBefore env w fs cmds (length cmds)"
  let ?res = "finish fs cmds ?st"
  let ?b = "batchBefore env w fs cmds k"
  let ?r = "fst (tryCall env (engine ?b) (stepInputs env w fs cmds k) (cmds ! k))"
  have ex: "execute env w a cmd = (Inr ?res, engine ?st)"
    unfolding assms(2,3) using assms(1) by (rule execute_returns)
  have rs: "results ?res = resultsAcc ?st"
    by (simp add: finish_def)
  have nth: "results ?res ! k = ?r"
    using assms(4) by (simp add: rs resultsAcc_batchBefore_nth)
  have before: "resultsAcc ?b = take k (results ?res)"
    unfolding rs using assms(4) by (intro resultsAcc_batchBefore_take) simp
  have step: "batchBefore env w fs cmds (Suc k)
      = absorb env ?b (results ?res ! k)
          (snd (call env (engine ?b) (stepInputs env w fs cmds k) (map tokenString (cmds ! k))))"
  proof -
    have "batchBefore env w fs cmds (Suc k) = runStep env ?b (cmds ! k)"
      using assms(4) by (rule batchBefore_Suc)
    also have "\<dots> = absorb env ?b ?r (snd (tryCall env (engine ?b) (stepInputs env w fs cmds k) (cmds ! k)))"
      by (simp only: runStep_def stepInputs_def split_beta)
    finally show ?thesis
      by (simp only: nth snd_tryCall)
  qed
  have pool: "map_of (allInputFiles ?b) = latestByName (ownNamed (fs @ absorbedFiles env (take k (results ?res))))"
    unfolding before [symmetric] by (rule pool_batchBefore)
  have vals: "set (stepInputs env w fs cmds k)
      = ran (latestByName (ownNamed (fs @ absorbedFiles env (take k (results ?res)))))"
    unfolding before [symmetric] by (rule stepInputs_ran)
  have names: "name ` set (stepInputs env w fs cmds k)
      = (name ` set fs \<union> (\<Union>r\<in>set (take k (results ?res)). name ` set (outputFiles r)))
        - {''__proto__''}"
    unfolding before [symmetric] by (rule stepInputs_names)
  have absorbs: "\<forall>out\<in>set (outputFiles (results ?res ! k)).
      name out \<noteq> ''__proto__''
      \<and> (\<forall>o'\<in>set (outputFiles (results ?res ! k)). name o' = name out \<longrightarrow> o' = out)
      \<longrightarrow> asInputFile (readBlob env) out \<in> set (stepInputs env w fs cmds (Suc k))"
    unfolding nth
  proof (intro ballI impI)
    fix out
    assume o: "out \<in> set (outputFiles ?r)"
      and u: "name out \<noteq> ''__proto__''
        \<and> (\<forall>o'\<in>set (outputFiles ?r). name o' = name out \<longrightarrow> o' = out)"
    show "asInputFile (readBlob env) out \<in> set (stepInputs env w fs cmds (Suc k))"
      by (rule stepInputs_absorbs_output [OF assms(4) o u [THEN conjunct2] u [THEN conjunct1]])
  qed
  have "resultsAcc (batchBefore env w fs cmds' 0) = []" for cmds'
    by (simp add: batchBefore_def initBatch_def)
  then have first: "\<forall>cmds'. name ` set (stepInputs env w fs cmds' 0) = name ` set fs - {''__proto__''}"
    by (simp add: stepInputs_names)
  show ?thesis
    apply (rule exI [of _ ?res])
    apply (rule exI [of _ "engine ?st"])
    apply (intro conjI)
    apply (rule ex)
    apply (rule nth)
    apply (rule step)
    apply (rule pool)
    apply (rule vals)
    apply (rule names)
    apply (rule absorbs)
    apply (rule first)
    done
qed

text \<open>
  C1 on the code, at a file named \<open>__proto__\<close>. As a caller-supplied input file it is
  not among the inputs of the first step, which is called with no file and fails. As
  the output of the first step of a chain it is not among the inputs of the second
  step, which names it and fails, where the claim says that the second step's inputs
  include the first step's output. On the chain through \<open>mid.png\<close> the second step does
  see the first step's output.
\<close>

theorem proto_named_file_is_not_handed_on:
  "stepInputs demoEnv 0 [protoFile] [[TStr ''convert'', TStr ''__proto__'', TStr ''out.png'']] 0
     = []
   \<and> map exitCode (results (projr (fst (execute demoEnv 0
          (ArgConfig (Config (Some [protoFile])
             (ArgCommands [[TStr ''convert'', TStr ''__proto__'', TStr ''out.png'']]))) None))))
       = [1]
   \<and> inputFiles (projr (fst (execute demoEnv 0
          (ArgConfig (Config (Some [protoFile])
             (ArgCommands [[TStr ''convert'', TStr ''__proto__'', TStr ''out.png'']]))) None)))
       = [protoFile]
   \<and> map (\<lambda>r. map name (outputFiles r)) (results (projr (fst (execute demoEnv 0
          (ArgConfig (Config (Some [rose]) (ArgCommands protoChain))) None))))
       = [[''__proto__''], []]
   \<and> map name (stepInputs demoEnv 0 [rose] protoChain 1) = [''rose.png'']
   \<and> map exitCode (results (projr (fst (execute demoEnv 0
          (ArgConfig (Config (Some [rose]) (ArgCommands protoChain))) None))))
       = [0, 1]
   \<and> map name (stepInputs demoEnv 0 [rose] demoChain 1) = [''rose.png'', ''mid.png'']
   \<and> map exitCode (results (projr (fst (execute demoEnv 0
          (ArgConfig (Config (Some [rose]) (ArgCommands demoChain))) None))))
       = [0, 0]"
  by code_simp

section \<open>The registry: entries and lookups\<close>

lemma images_register:
  "images (snd (register rd file nm h))
     = assign (callName (file, nm)) (length (heap h)) (images h)"
  by (simp add: register_def callName_def Let_def split: option.splits)

lemma prototype_register:
  "prototype (snd (register rd file nm h))
     = (if callName (file, nm) = ''__proto__'' then Some (length (heap h)) else prototype h)"
  by (simp add: register_def callName_def Let_def split: option.splits)

lemma heap_register:
  "heap (snd (register rd file nm h))
     = heap h @ [\<lparr>conversion = asInputFile rd file, resolved = False\<rparr>]"
  by (simp add: register_def Let_def)

lemma fst_register: "fst (register rd file nm h) = length (heap h)"
  by (simp add: register_def Let_def)

lemma flag_register:
  "builtInImagesAdded (snd (register rd file nm h)) = builtInImagesAdded h"
  by (simp add: register_def Let_def)

lemma registered_register:
  "registered n (snd (register rd file nm h))
     = (if n = callName (file, nm) then Some (length (heap h)) else registered n h)"
  by (auto simp: registered_def images_register prototype_register assign_def update_conv')

lemma registerCalls_snoc:
  "registerCalls rd (cs @ [c]) h = snd (register rd (fst c) (snd c) (registerCalls rd cs h))"
  by (simp add: registerCalls_def)

lemma registerCalls_Nil: "registerCalls rd [] h = h"
  by (simp add: registerCalls_def)

lemma heap_registerCalls:
  "heap (registerCalls rd cs h)
     = heap h @ map (\<lambda>c. \<lparr>conversion = asInputFile rd (fst c), resolved = False\<rparr>) cs"
  by (induction cs rule: rev_induct) (simp_all add: registerCalls_Nil registerCalls_snoc heap_register)

lemma distinct_assign: "distinct (map fst al) \<Longrightarrow> distinct (map fst (assign k v al))"
  by (simp add: assign_def distinct_update)

lemma keys_assign: "fst ` set (assign k v al) = fst ` set al \<union> ({k} - {''__proto__''})"
  by (auto simp: assign_def dom_update)

lemma distinct_registerCalls:
  "distinct (map fst (images h)) \<Longrightarrow> distinct (map fst (images (registerCalls rd cs h)))"
  by (induction cs rule: rev_induct)
    (simp_all add: registerCalls_Nil registerCalls_snoc images_register distinct_assign)

lemma keys_registerCalls:
  "fst ` set (images (registerCalls rd cs h))
     = fst ` set (images h) \<union> (callName ` set cs - {''__proto__''})"
  by (induction cs rule: rev_induct)
    (auto simp: registerCalls_Nil registerCalls_snoc images_register keys_assign)

lemma latest_registerCalls:
  assumes "i < length cs"
    and "\<And>j. i < j \<Longrightarrow> j < length cs \<Longrightarrow> callName (cs ! j) \<noteq> callName (cs ! i)"
  shows "registered (callName (cs ! i)) (registerCalls rd cs h) = Some (length (heap h) + i)"
  using assms
proof (induction cs rule: rev_induct)
  case Nil
  then show ?case by simp
next
  case (snoc c cs)
  show ?case
  proof (cases "i = length cs")
    case True
    then show ?thesis
      by (simp add: registerCalls_snoc registered_register heap_registerCalls)
  next
    case False
    with snoc.prems(1) have i: "i < length cs" by simp
    have "callName ((cs @ [c]) ! length cs) \<noteq> callName ((cs @ [c]) ! i)"
      using i by (intro snoc.prems(2)) simp_all
    then have ne: "callName c \<noteq> callName (cs ! i)"
      using i by (simp add: nth_append)
    have "registered (callName (cs ! i)) (registerCalls rd cs h) = Some (length (heap h) + i)"
    proof (rule snoc.IH [OF i])
      fix j assume j: "i < j" "j < length cs"
      then have "callName ((cs @ [c]) ! j) \<noteq> callName ((cs @ [c]) ! i)"
        by (intro snoc.prems(2)) simp_all
      with j i show "callName (cs ! j) \<noteq> callName (cs ! i)"
        by (simp add: nth_append)
    qed
    with ne i show ?thesis
      by (simp add: registerCalls_snoc registered_register nth_append)
  qed
qed


lemma count_key_distinct:
  "distinct (map fst al) \<Longrightarrow> k \<in> fst ` set al \<Longrightarrow> length (filter (\<lambda>e. fst e = k) al) = 1"
  by (induction al) (auto simp: filter_empty_conv image_iff)

text \<open>
  Every operation of the registry keeps the keys of \<open>images\<close> pairwise distinct, as
  the keys of an object are.
\<close>

lemma distinct_images_createImageHome: "distinct (map fst (images createImageHome))"
  by (simp add: createImageHome_def)

lemma distinct_images_register:
  "distinct (map fst (images h)) \<Longrightarrow> distinct (map fst (images (snd (register rd file nm h))))"
  by (simp add: images_register distinct_assign)

lemma distinct_images_settle:
  "distinct (map fst (images h)) \<Longrightarrow> distinct (map fst (images (settle p h)))"
  by (simp add: settle_def)

lemma distinct_images_remove:
  "distinct (map fst (images h)) \<Longrightarrow> distinct (map fst (images (snd (remove names h))))"
  by (simp add: remove_def distinct_map_filter)

text \<open>
  What the code does, for every name. \<open>register(file, name)\<close> returns a fresh promise
  with the flag \<open>resolved\<close> unset; afterwards \<open>this.images[name]\<close> is that promise, and
  for every other name it is the promise it was, if it was one. After any sequence of
  \<open>register\<close> calls the keys of \<open>images\<close> are pairwise distinct; they are the keys
  present before and the names registered, the name \<open>__proto__\<close> left out; and for each
  registered name \<open>this.images[name]\<close> is the promise of the last call that registered
  it. A registered name other than \<open>__proto__\<close> is a key exactly once.
\<close>

lemma register_latest_promise:
  assumes "distinct (map fst (images h))"
  shows "fst (register rd file nm h) = length (heap h)
    \<and> registered (callName (file, nm)) (snd (register rd file nm h)) = Some (length (heap h))
    \<and> \<not> resolvedFlag (snd (register rd file nm h)) (length (heap h))
    \<and> conversion (heap (snd (register rd file nm h)) ! length (heap h)) = asInputFile rd file
    \<and> (\<forall>m. m \<noteq> callName (file, nm) \<longrightarrow>
          registered m (snd (register rd file nm h)) = registered m h)
    \<and> distinct (map fst (images (registerCalls rd cs h)))
    \<and> fst ` set (images (registerCalls rd cs h))
        = fst ` set (images h) \<union> (callName ` set cs - {''__proto__''})
    \<and> (\<forall>i<length cs.
          (\<forall>j<length cs. i < j \<longrightarrow> callName (cs ! j) \<noteq> callName (cs ! i)) \<longrightarrow>
          registered (callName (cs ! i)) (registerCalls rd cs h) = Some (length (heap h) + i)
          \<and> conversion (heap (registerCalls rd cs h) ! (length (heap h) + i))
              = asInputFile rd (fst (cs ! i))
          \<and> (callName (cs ! i) \<noteq> ''__proto__'' \<longrightarrow>
               length (filter (\<lambda>e. fst e = callName (cs ! i))
                         (images (registerCalls rd cs h))) = 1))"
proof -
  let ?h' = "snd (register rd file nm h)"
  let ?n = "callName (file, nm)"
  have a: "fst (register rd file nm h) = length (heap h)"
    by (rule fst_register)
  have b: "registered ?n ?h' = Some (length (heap h))"
    by (simp add: registered_register)
  have c: "\<not> resolvedFlag ?h' (length (heap h))"
    by (simp add: resolvedFlag_def heap_register)
  have d: "conversion (heap ?h' ! length (heap h)) = asInputFile rd file"
    by (simp add: heap_register)
  have e: "\<forall>m. m \<noteq> ?n \<longrightarrow> registered m ?h' = registered m h"
    by (simp add: registered_register)
  have g: "distinct (map fst (images (registerCalls rd cs h)))"
    using assms by (rule distinct_registerCalls)
  have k: "fst ` set (images (registerCalls rd cs h))
      = fst ` set (images h) \<union> (callName ` set cs - {''__proto__''})"
    by (rule keys_registerCalls)
  have l: "registered (callName (cs ! i)) (registerCalls rd cs h) = Some (length (heap h) + i)
      \<and> conversion (heap (registerCalls rd cs h) ! (length (heap h) + i))
          = asInputFile rd (fst (cs ! i))
      \<and> (callName (cs ! i) \<noteq> ''__proto__'' \<longrightarrow>
           length (filter (\<lambda>e. fst e = callName (cs ! i))
                     (images (registerCalls rd cs h))) = 1)"
    if "i < length cs" "\<forall>j<length cs. i < j \<longrightarrow> callName (cs ! j) \<noteq> callName (cs ! i)" for i
  proof (intro conjI impI)
    show "registered (callName (cs ! i)) (registerCalls rd cs h) = Some (length (heap h) + i)"
      using that by (intro latest_registerCalls) simp_all
    show "conversion (heap (registerCalls rd cs h) ! (length (heap h) + i))
            = asInputFile rd (fst (cs ! i))"
      using that(1) by (simp add: heap_registerCalls)
    assume "callName (cs ! i) \<noteq> ''__proto__''"
    then have "callName (cs ! i) \<in> fst ` set (images (registerCalls rd cs h))"
      using that(1) by (simp add: keys_registerCalls)
    with g show "length (filter (\<lambda>e. fst e = callName (cs ! i))
                           (images (registerCalls rd cs h))) = 1"
      by (rule count_key_distinct)
  qed
  show ?thesis
    apply (intro conjI)
    apply (rule a)
    apply (rule b)
    apply (rule c)
    apply (rule d)
    apply (rule e)
    apply (rule g)
    apply (rule k)
    using l apply simp
    done
qed

text \<open>
  C7 on the code, at the name \<open>__proto__\<close>. After \<open>register\<close> of a file of that name on
  a new registry \<open>images\<close> has no key: the promise is the prototype of \<open>images\<close>, and
  \<open>remove\<close> of that name removes nothing. After the registrations of \<open>rose.png\<close> and of
  \<open>__proto__\<close> the registry holds the one key \<open>rose.png\<close>, where the claim says it
  holds one entry per registered name. After the three registrations of \<open>rose.png\<close>,
  \<open>lily.png\<close> and \<open>rose.png\<close> again it holds the two keys, \<open>rose.png\<close> with the third
  promise.
\<close>

theorem proto_named_registration_has_no_entry:
  "images (snd (register content protoFile None createImageHome)) = []
   \<and> prototype (snd (register content protoFile None createImageHome)) = Some 0
   \<and> fst (remove [''__proto__''] (snd (register content protoFile None createImageHome))) = []
   \<and> images (registerCalls content [(rose, None), (protoFile, None)] createImageHome)
       = [(''rose.png'', 0)]
   \<and> images (registerCalls content demoCalls createImageHome)
       = [(''rose.png'', 2), (''lily.png'', 1)]"
  by code_simp

section \<open>The registry: built-in images\<close>











section \<open>The registry: isRegistered\<close>

text \<open>
  What \<open>isRegistered\<close> computes: with \<open>andReady\<close> false the conjunction
  \<open>andReady && resolved\<close> is false, so the answer is false for every name.
\<close>

lemma isRegistered_iff:
  "isRegistered n andReady h
     \<longleftrightarrow> (\<exists>p. registered n h = Some p \<and> andReady \<noteq> Some False \<and> resolvedFlag h p)"
  by (auto simp: isRegistered_def split: option.splits)

text \<open>
  C6 on the code: after \<open>register\<close> of \<open>rose.png\<close> the entry exists
  (\<open>this.images['rose.png']\<close> is the promise); with
  \<open>andReady\<close> false \<open>isRegistered\<close> answers false while the conversion is pending and
  after it has completed, where the claim says it reports registered. Under the
  default the entry reports not registered while pending and registered once
  resolved, and an absent name reports not registered.
\<close>

theorem isRegistered_andReady_false_is_never_true:
  "registered ''rose.png'' (snd (register content rose None createImageHome)) = Some 0
   \<and> \<not> isRegistered ''rose.png'' (Some False) (snd (register content rose None createImageHome))
   \<and> \<not> isRegistered ''rose.png'' (Some False)
         (settle 0 (snd (register content rose None createImageHome)))
   \<and> \<not> isRegistered ''rose.png'' None (snd (register content rose None createImageHome))
   \<and> isRegistered ''rose.png'' None
         (settle 0 (snd (register content rose None createImageHome)))
   \<and> \<not> isRegistered ''lily.png'' None
         (settle 0 (snd (register content rose None createImageHome)))"
  by (simp add: isRegistered_def registered_def register_def assign_def settle_def
      createImageHome_def resolvedFlag_def rose_def Let_def)

end

